theory Spec2Isabelle
  imports Main "HOL-Library.AList"
begin

section \<open>Strings and \<open>String.prototype.slice\<close>\<close>

text \<open>
  Document content is a JavaScript string. It is modelled as a \<open>string\<close>; one \<open>char\<close>
  stands for one code unit, which is what \<open>slice\<close> and \<open>length\<close> count. Numbers that
  the handlers receive as positions and lengths are modelled as integers (the interface
  declares \<open>number\<close>; fractions, NaN and infinities are outside the model).

  \<open>slice_index\<close> is the index normalisation of \<open>String.prototype.slice\<close>: a negative
  index counts from the end and is clamped at 0, a non-negative one is clamped at the
  length.
\<close>

definition slice_index :: "nat \<Rightarrow> int \<Rightarrow> nat" where
  "slice_index len i = (if i < 0 then nat (max (int len + i) 0) else min (nat i) len)"

text \<open>\<open>s.slice(start, end)\<close>\<close>

definition slice :: "'a list \<Rightarrow> int \<Rightarrow> int \<Rightarrow> 'a list" where
  "slice s start end =
     (let from = slice_index (length s) start;
          to = slice_index (length s) end
      in take (to - from) (drop from s))"

text \<open>\<open>s.slice(start)\<close>\<close>

definition slice_from :: "'a list \<Rightarrow> int \<Rightarrow> 'a list" where
  "slice_from s start = drop (slice_index (length s) start) s"

section \<open>Data model\<close>

datatype jsval = JNum int | JStr string

text \<open>
  The \<open>type\<close> tag of an operation. The interface lists three tags; any other string that
  arrives at run time reaches the \<open>default\<close> branch of \<open>applyOperation\<close>.
\<close>

datatype op_type = Insert | Delete | Retain | OtherType string

text \<open>
  The frame of a \<open>text-operation\<close> message as the client sends it. \<open>extras\<close> holds the
  properties of the received object beyond the declared ones; the object spread in the
  handler copies them.
\<close>

record OperationFrame =
  op_type :: op_type
  position :: int
  content :: "string option"
  op_length :: "int option"
  extras :: "(string \<times> jsval) list"

text \<open>The complete operation: the frame extended with the fields the server stamps.\<close>

record TextOperation = OperationFrame +
  userId :: string
  timestamp :: int
  sessionId :: string

record cursor_pos =
  line :: int
  column :: int

type_synonym selection_range = "cursor_pos \<times> cursor_pos"

record SessionParticipant =
  p_userId :: string
  p_username :: string
  socketId :: string
  joinedAt :: int
  cursor :: "cursor_pos option"
  selection :: "selection_range option"

text \<open>
  \<open>participants\<close> is a JavaScript \<open>Map\<close>, whose iteration order is the order of first
  insertion: an association list, written with \<open>AList.update\<close> (\<open>Map.set\<close>: replace in
  place, or append) and \<open>AList.delete\<close> (\<open>Map.delete\<close>). Dates are clock values in
  milliseconds. \<open>version\<close> is a counter that starts at 1 and is incremented by one;
  it is modelled as an integer (a JavaScript number counts exactly up to \<open>2^53\<close>).
\<close>

record CollaborationSession =
  s_sessionId :: string
  projectId :: string
  participants :: "(string \<times> SessionParticipant) list"
  currentContent :: string
  version :: int
  lastActivity :: int

section \<open>applyOperation\<close>

text \<open>\<open>operation.content || ''\<close> and \<open>operation.length || 0\<close>\<close>

definition content_or_empty :: "string option \<Rightarrow> string" where
  "content_or_empty c = (case c of None \<Rightarrow> [] | Some s \<Rightarrow> s)"

definition length_or_zero :: "int option \<Rightarrow> int" where
  "length_or_zero l = (case l of None \<Rightarrow> 0 | Some n \<Rightarrow> n)"

definition applyOperation :: "string \<Rightarrow> TextOperation \<Rightarrow> string" where
  "applyOperation c operation =
     (case op_type operation of
        Insert \<Rightarrow>
          slice c 0 (position operation) @ content_or_empty (content operation)
            @ slice_from c (position operation)
      | Delete \<Rightarrow>
          slice c 0 (position operation)
            @ slice_from c (position operation + length_or_zero (op_length operation))
      | Retain \<Rightarrow> c
      | OtherType t \<Rightarrow> c)"

section \<open>Sockets and outbound messages\<close>

text \<open>
  The per-connection state the handlers read and write: the socket's id, the identity
  bound at connection time, \<open>socket.data.sessionId\<close> (\<open>None\<close> is \<open>undefined\<close>) and
  the rooms the socket has joined through \<open>socket.join\<close> and left through
  \<open>socket.leave\<close>, together with the rooms the transport library puts it in by itself
  (see \<open>connection\<close> below).
\<close>

record AuthenticatedSocket =
  sock_id :: string
  sock_userId :: string
  sock_username :: string
  role :: string
  data_sessionId :: "string option"
  rooms :: "string set"

text \<open>An item of the \<open>participants\<close> array of the \<open>session-joined\<close> payload.\<close>

record participant_info =
  i_userId :: string
  i_username :: string
  i_joinedAt :: int
  i_cursor :: "cursor_pos option"

text \<open>The payload of a \<open>cursor-update\<close> frame.\<close>

record cursor_update_data =
  d_line :: int
  d_column :: int
  d_selection :: "selection_range option"

datatype payload =
    SessionJoined string string int "participant_info list"
  | ParticipantJoined string string int
  | OperationApplied TextOperation
  | OperationAcknowledged int int
  | CursorMoved string string cursor_update_data int
  | ParticipantLeft string string
  | ErrorMessage string
  | TestResponse string int string

text \<open>
  \<open>ToSocket s p\<close> is \<open>socket.emit\<close> on the socket with id \<open>s\<close>;
  \<open>ToOthers room s p\<close> is \<open>socket.to(room).emit\<close> on that socket: a broadcast to the
  sockets of the room other than \<open>s\<close>.
\<close>

datatype emit = ToSocket string payload | ToOthers string string payload

fun emitted_payload :: "emit \<Rightarrow> payload" where
  "emitted_payload (ToSocket s p) = p"
| "emitted_payload (ToOthers room s p) = p"

type_synonym sessions = "string \<rightharpoonup> CollaborationSession"

section \<open>The handlers\<close>

text \<open>
  Each handler takes the clock values it reads (\<open>new Date()\<close>, \<open>Date.now()\<close>), the
  session store \<open>activeSessions\<close>, the socket and the frame, and returns the store, the
  socket and the messages emitted, in order. Frames are well-typed, so the \<open>catch\<close>
  clauses of the handlers are not reached. Each handler runs as one step. The only
  \<open>await\<close> is in the \<open>join-session\<close> handler, after \<open>participants.set\<close> and
  \<open>socket.join\<close> and before \<open>socket.data.sessionId\<close> is written; \<open>join_session\<close> is the
  handler passing it with no other handler running in between, so the runs of the model
  are the runs of the server in which no handler runs while a join is suspended.
  Statements about every server state do not depend on this.
\<close>

definition default_content :: string where
  "default_content = ''// Welcome to CollabCode collaborative session!'' @ [CHR 0x0A]"

definition new_session :: "string \<Rightarrow> int \<Rightarrow> CollaborationSession" where
  "new_session sid now =
     \<lparr>s_sessionId = sid, projectId = ''temp-project'', participants = [],
      currentContent = default_content, version = 1, lastActivity = now\<rparr>"

definition resolve_session :: "sessions \<Rightarrow> string \<Rightarrow> int \<Rightarrow> CollaborationSession" where
  "resolve_session store sid now =
     (case store sid of None \<Rightarrow> new_session sid now | Some session \<Rightarrow> session)"

definition new_participant :: "AuthenticatedSocket \<Rightarrow> int \<Rightarrow> SessionParticipant" where
  "new_participant socket now =
     \<lparr>p_userId = sock_userId socket, p_username = sock_username socket,
      socketId = sock_id socket, joinedAt = now, cursor = None, selection = None\<rparr>"

definition info_of :: "SessionParticipant \<Rightarrow> participant_info" where
  "info_of p =
     \<lparr>i_userId = p_userId p, i_username = p_username p, i_joinedAt = joinedAt p,
      i_cursor = cursor p\<rparr>"

definition join_session ::
  "int \<Rightarrow> int \<Rightarrow> sessions \<Rightarrow> AuthenticatedSocket \<Rightarrow> string
    \<Rightarrow> sessions \<times> AuthenticatedSocket \<times> emit list" where
  "join_session t_created t_joined store socket sid =
     (let session = resolve_session store sid t_created;
          participant = new_participant socket t_joined;
          session' = session\<lparr>participants :=
            AList.update (sock_userId socket) participant (participants session)\<rparr>
      in (store(sid \<mapsto> session'),
          socket\<lparr>rooms := insert sid (rooms socket), data_sessionId := Some sid\<rparr>,
          [ToSocket (sock_id socket)
             (SessionJoined sid (currentContent session') (version session')
                (map (info_of \<circ> snd) (participants session'))),
           ToOthers sid (sock_id socket)
             (ParticipantJoined (p_userId participant) (p_username participant)
                (joinedAt participant))]))"

text \<open>
  \<open>{...operation, userId, timestamp, sessionId}\<close>: the frame's properties, with the three
  stamped ones overriding whatever the frame carried under those names.
\<close>

definition completeOperation ::
  "OperationFrame \<Rightarrow> AuthenticatedSocket \<Rightarrow> int \<Rightarrow> string \<Rightarrow> TextOperation" where
  "completeOperation operation socket now sid =
     \<lparr>op_type = op_type operation, position = position operation,
      content = content operation, op_length = op_length operation,
      extras = filter (\<lambda>(k, v). k \<notin> {''userId'', ''timestamp'', ''sessionId''})
                 (extras operation),
      userId = sock_userId socket, timestamp = now, sessionId = sid\<rparr>"

definition text_operation ::
  "int \<Rightarrow> int \<Rightarrow> sessions \<Rightarrow> AuthenticatedSocket \<Rightarrow> OperationFrame
    \<Rightarrow> sessions \<times> AuthenticatedSocket \<times> emit list" where
  "text_operation t_stamp t_activity store socket operation =
     (case data_sessionId socket of
        None \<Rightarrow>
          (store, socket, [ToSocket (sock_id socket) (ErrorMessage ''Not in a session'')])
      | Some sid \<Rightarrow>
          if sid = [] then
            (store, socket, [ToSocket (sock_id socket) (ErrorMessage ''Not in a session'')])
          else
            (case store sid of
               None \<Rightarrow>
                 (store, socket,
                  [ToSocket (sock_id socket) (ErrorMessage ''Session not found'')])
             | Some session \<Rightarrow>
                 (let complete = completeOperation operation socket t_stamp sid;
                      session' = session
                        \<lparr>currentContent := applyOperation (currentContent session) complete,
                         version := version session + 1,
                         lastActivity := t_activity\<rparr>
                  in (store(sid \<mapsto> session'), socket,
                      [ToOthers sid (sock_id socket) (OperationApplied complete),
                       ToSocket (sock_id socket)
                         (OperationAcknowledged (timestamp complete) (version session'))]))))"

definition move_cursor :: "cursor_update_data \<Rightarrow> SessionParticipant \<Rightarrow> SessionParticipant" where
  "move_cursor d participant =
     participant\<lparr>cursor := Some \<lparr>line = d_line d, column = d_column d\<rparr>,
                 selection := d_selection d\<rparr>"

definition cursor_update ::
  "int \<Rightarrow> sessions \<Rightarrow> AuthenticatedSocket \<Rightarrow> cursor_update_data
    \<Rightarrow> sessions \<times> AuthenticatedSocket \<times> emit list" where
  "cursor_update now store socket d =
     (case data_sessionId socket of
        None \<Rightarrow> (store, socket, [])
      | Some sid \<Rightarrow>
          if sid = [] then (store, socket, [])
          else
            (case store sid of
               None \<Rightarrow> (store, socket, [])
             | Some session \<Rightarrow>
                 (let store' =
                        (case map_of (participants session) (sock_userId socket) of
                           None \<Rightarrow> store
                         | Some participant \<Rightarrow>
                             store(sid \<mapsto> session\<lparr>participants :=
                               AList.update (sock_userId socket) (move_cursor d participant)
                                 (participants session)\<rparr>))
                  in (store', socket,
                      [ToOthers sid (sock_id socket)
                         (CursorMoved (sock_userId socket) (sock_username socket) d now)]))))"

definition handleLeaveSession ::
  "sessions \<Rightarrow> AuthenticatedSocket \<Rightarrow> sessions \<times> AuthenticatedSocket \<times> emit list" where
  "handleLeaveSession store socket =
     (case data_sessionId socket of
        None \<Rightarrow> (store, socket, [])
      | Some sid \<Rightarrow>
          if sid = [] \<or> sock_userId socket = [] then (store, socket, [])
          else
            (case store sid of
               None \<Rightarrow> (store, socket, [])
             | Some session \<Rightarrow>
                 (let remaining = AList.delete (sock_userId socket) (participants session)
                  in ((if length remaining = 0 then store(sid := None)
                       else store(sid \<mapsto> session\<lparr>participants := remaining\<rparr>)),
                      socket\<lparr>rooms := rooms socket - {sid}, data_sessionId := None\<rparr>,
                      [ToOthers sid (sock_id socket)
                         (ParticipantLeft (sock_userId socket) (sock_username socket))]))))"

definition test_event ::
  "int \<Rightarrow> sessions \<Rightarrow> AuthenticatedSocket \<Rightarrow> sessions \<times> AuthenticatedSocket \<times> emit list" where
  "test_event now store socket =
     (store, socket,
      [ToSocket (sock_id socket)
         (TestResponse ''Backend received your test!'' now (sock_id socket))])"

section \<open>The server: connections and dispatch\<close>

record server =
  activeSessions :: sessions
  sockets :: "string \<rightharpoonup> AuthenticatedSocket"

text \<open>
  What the \<open>connection\<close> callback binds: the socket id serves as the user id. The
  transport library has put the new socket in the room named by its own id.
\<close>

definition connection :: "string \<Rightarrow> AuthenticatedSocket" where
  "connection sid =
     \<lparr>sock_id = sid, sock_userId = sid, sock_username = ''User-'' @ slice sid 0 8,
      role = ''developer'', data_sessionId = None, rooms = {sid}\<rparr>"

text \<open>
  The server is created with \<open>connectionStateRecovery\<close>: a client that reconnects in time
  gets a socket with the id, the rooms and the \<open>data\<close> of its previous connection, and the
  \<open>connection\<close> callback runs on it as on a new one.
\<close>

definition recovered :: "string \<Rightarrow> string set \<Rightarrow> string option \<Rightarrow> AuthenticatedSocket" where
  "recovered sid old_rooms old_sessionId =
     (connection sid)\<lparr>data_sessionId := old_sessionId, rooms := insert sid old_rooms\<rparr>"

text \<open>
  An inbound event names the socket it arrives on and carries the frame and the clock
  values its handler reads.
\<close>

datatype event =
    Connection string
  | Recovery string "string set" "string option"
  | JoinSession string string int int
  | TextOperationFrame string OperationFrame int int
  | CursorUpdate string cursor_update_data int
  | LeaveSession string
  | Disconnect string
  | TestEvent string int

fun event_socket :: "event \<Rightarrow> string" where
  "event_socket (Connection s) = s"
| "event_socket (Recovery s old_rooms old_sessionId) = s"
| "event_socket (JoinSession s sid t_created t_joined) = s"
| "event_socket (TextOperationFrame s operation t_stamp t_activity) = s"
| "event_socket (CursorUpdate s d now) = s"
| "event_socket (LeaveSession s) = s"
| "event_socket (Disconnect s) = s"
| "event_socket (TestEvent s now) = s"

text \<open>The handler registered for a frame, run on the socket the frame arrived on.\<close>

fun handle ::
  "event \<Rightarrow> sessions \<Rightarrow> AuthenticatedSocket
    \<Rightarrow> sessions \<times> AuthenticatedSocket \<times> emit list" where
  "handle (Connection s) store socket = (store, socket, [])"
| "handle (Recovery s old_rooms old_sessionId) store socket = (store, socket, [])"
| "handle (JoinSession s sid t_created t_joined) store socket =
     join_session t_created t_joined store socket sid"
| "handle (TextOperationFrame s operation t_stamp t_activity) store socket =
     text_operation t_stamp t_activity store socket operation"
| "handle (CursorUpdate s d now) store socket = cursor_update now store socket d"
| "handle (LeaveSession s) store socket = handleLeaveSession store socket"
| "handle (Disconnect s) store socket = handleLeaveSession store socket"
| "handle (TestEvent s now) store socket = test_event now store socket"

text \<open>
  One step of the server. A connection or a recovery registers a socket under an id that
  is not connected; a frame on a connected socket runs its handler; a disconnect runs
  \<open>handleLeaveSession\<close> and the socket is gone. Frames name connected sockets: anything
  else is no step.
\<close>

definition step :: "server \<Rightarrow> event \<Rightarrow> server \<times> emit list" where
  "step srv ev =
     (case sockets srv (event_socket ev) of
        None \<Rightarrow>
          (case ev of
             Connection s \<Rightarrow> (srv\<lparr>sockets := (sockets srv)(s \<mapsto> connection s)\<rparr>, [])
           | Recovery s old_rooms old_sessionId \<Rightarrow>
               (srv\<lparr>sockets := (sockets srv)(s \<mapsto> recovered s old_rooms old_sessionId)\<rparr>,
                [])
           | _ \<Rightarrow> (srv, []))
      | Some socket \<Rightarrow>
          (case handle ev (activeSessions srv) socket of
             (store', socket', out) \<Rightarrow>
               (\<lparr>activeSessions = store',
                 sockets = (case ev of
                    Disconnect s \<Rightarrow> (sockets srv)(s := None)
                  | _ \<Rightarrow> (sockets srv)(event_socket ev \<mapsto> socket'))\<rparr>,
                out)))"

fun run :: "server \<Rightarrow> event list \<Rightarrow> server \<times> emit list" where
  "run srv [] = (srv, [])"
| "run srv (ev # evs) =
     (case step srv ev of
        (srv', out) \<Rightarrow> (case run srv' evs of (srv'', out') \<Rightarrow> (srv'', out @ out')))"

definition init_server :: server where
  "init_server = \<lparr>activeSessions = Map.empty, sockets = Map.empty\<rparr>"

text \<open>
  Delivery of an emitted message: \<open>receives srv r e\<close> holds when the socket with id \<open>r\<close>
  is a recipient of \<open>e\<close>, given the rooms of the connected sockets of \<open>srv\<close>.
\<close>

fun receives :: "server \<Rightarrow> string \<Rightarrow> emit \<Rightarrow> bool" where
  "receives srv r (ToSocket s p) = (r = s)"
| "receives srv r (ToOthers room s p) =
     (r \<noteq> s \<and> (case sockets srv r of None \<Rightarrow> False | Some socket \<Rightarrow> room \<in> rooms socket))"

section \<open>Text operations of one session, in receipt order\<close>

text \<open>
  \<open>stamped srv sid ev\<close> is the complete operation that the \<open>text-operation\<close> handler
  applies to session \<open>sid\<close> for the frame \<open>ev\<close>: one operation when \<open>ev\<close> is a
  \<open>text-operation\<close> frame on a connected socket bound to \<open>sid\<close>, none otherwise.
\<close>

fun stamped :: "server \<Rightarrow> string \<Rightarrow> event \<Rightarrow> TextOperation list" where
  "stamped srv sid (TextOperationFrame s operation t_stamp t_activity) =
     (case sockets srv s of
        None \<Rightarrow> []
      | Some socket \<Rightarrow>
          if data_sessionId socket = Some sid \<and> sid \<noteq> []
          then [completeOperation operation socket t_stamp sid] else [])"
| "stamped srv sid ev = []"

definition operations_for :: "server \<Rightarrow> string \<Rightarrow> event list \<Rightarrow> TextOperation list" where
  "operations_for srv sid evs = concat (map (stamped srv sid) evs)"

fun is_text_frame :: "event \<Rightarrow> bool" where
  "is_text_frame (TextOperationFrame s operation t_stamp t_activity) = True"
| "is_text_frame ev = False"

definition frame_for :: "server \<Rightarrow> string \<Rightarrow> event \<Rightarrow> bool" where
  "frame_for srv sid ev = (is_text_frame ev \<and> length (stamped srv sid ev) = 1)"

section \<open>Properties of server states and runs\<close>

text \<open>No resident session has an empty participant map.\<close>

definition no_empty_session :: "sessions \<Rightarrow> bool" where
  "no_empty_session store =
     (\<forall>sid session. store sid = Some session \<longrightarrow> participants session \<noteq> [])"




fun is_error_payload :: "payload \<Rightarrow> bool" where
  "is_error_payload (ErrorMessage m) = True"
| "is_error_payload p = False"

text \<open>
  The \<open>joinedAt\<close> values along the \<open>participants\<close> array of a \<open>session-joined\<close>
  payload; no values for any other payload.
\<close>

fun payload_join_times :: "payload \<Rightarrow> int list" where
  "payload_join_times (SessionJoined sid c v infos) = map i_joinedAt infos"
| "payload_join_times p = []"

text \<open>The clock value a \<open>join-session\<close> frame stores as \<open>joinedAt\<close>, and those of a run.\<close>

fun join_time :: "event \<Rightarrow> int list" where
  "join_time (JoinSession s sid t_created t_joined) = [t_joined]"
| "join_time ev = []"

definition join_times :: "event list \<Rightarrow> int list" where
  "join_times evs = concat (map join_time evs)"

text \<open>
  \<open>rejoin srv ev\<close>: \<open>ev\<close> is a \<open>join-session\<close> frame on a connected socket whose user is
  already a participant of the session it names. \<open>no_rejoin srv evs\<close>: no event of the run
  \<open>evs\<close> from \<open>srv\<close> is one, each taken in the state it arrives in.
\<close>

fun rejoin :: "server \<Rightarrow> event \<Rightarrow> bool" where
  "rejoin srv (JoinSession s sid t_created t_joined) =
     (case sockets srv s of
        None \<Rightarrow> False
      | Some socket \<Rightarrow>
          (case activeSessions srv sid of
             None \<Rightarrow> False
           | Some session \<Rightarrow> map_of (participants session) (sock_userId socket) \<noteq> None))"
| "rejoin srv ev = False"

fun no_rejoin :: "server \<Rightarrow> event list \<Rightarrow> bool" where
  "no_rejoin srv [] = True"
| "no_rejoin srv (ev # evs) = (\<not> rejoin srv ev \<and> no_rejoin (fst (step srv ev)) evs)"

definition first_join :: "sessions \<Rightarrow> AuthenticatedSocket \<Rightarrow> string \<Rightarrow> bool" where
  "first_join store socket sid =
     (case store sid of
        None \<Rightarrow> True
      | Some session \<Rightarrow> map_of (participants session) (sock_userId socket) = None)"

text \<open>
  In every resident session, \<open>joinedAt\<close> does not decrease along the participant map; in
  every resident session, no \<open>joinedAt\<close> is later than \<open>t\<close>.
\<close>

definition join_ordered :: "sessions \<Rightarrow> bool" where
  "join_ordered store =
     (\<forall>sid session. store sid = Some session
        \<longrightarrow> sorted (map (joinedAt \<circ> snd) (participants session)))"

definition joined_before :: "sessions \<Rightarrow> int \<Rightarrow> bool" where
  "joined_before store t =
     (\<forall>sid session. store sid = Some session
        \<longrightarrow> (\<forall>p \<in> set (participants session). joinedAt (snd p) \<le> t))"

text \<open>The session that \<open>join_session\<close> stores under the session id.\<close>

definition session_after_join ::
  "sessions \<Rightarrow> AuthenticatedSocket \<Rightarrow> string \<Rightarrow> int \<Rightarrow> int \<Rightarrow> CollaborationSession" where
  "session_after_join store socket sid t1 t2 =
     (resolve_session store sid t1)\<lparr>participants :=
        AList.update (sock_userId socket) (new_participant socket t2)
          (participants (resolve_session store sid t1))\<rparr>"

section \<open>Example inputs\<close>

definition op_insert_far :: TextOperation where
  "op_insert_far =
     \<lparr>op_type = Insert, position = 10, content = Some ''X'', op_length = None,
      extras = [], userId = ''u1'', timestamp = 0, sessionId = ''S1''\<rparr>"

definition op_delete_far :: TextOperation where
  "op_delete_far =
     \<lparr>op_type = Delete, position = 4, content = None, op_length = Some 10,
      extras = [], userId = ''u1'', timestamp = 0, sessionId = ''S1''\<rparr>"

definition op_delete_negative :: TextOperation where
  "op_delete_negative =
     \<lparr>op_type = Delete, position = 3, content = None, op_length = Some (- 2),
      extras = [], userId = ''u1'', timestamp = 0, sessionId = ''S1''\<rparr>"

definition op_delete_missing :: TextOperation where
  "op_delete_missing =
     \<lparr>op_type = Delete, position = 3, content = None, op_length = None,
      extras = [], userId = ''u1'', timestamp = 0, sessionId = ''S1''\<rparr>"

definition frame_op7 :: OperationFrame where
  "frame_op7 =
     \<lparr>op_type = Insert, position = 0, content = Some ''x'', op_length = None,
      extras = [(''clientOpId'', JNum 7)]\<rparr>"

definition frame_op8 :: OperationFrame where
  "frame_op8 =
     \<lparr>op_type = Insert, position = 0, content = Some ''x'', op_length = None,
      extras = [(''clientOpId'', JNum 8)]\<rparr>"

definition frame_retain :: OperationFrame where
  "frame_retain =
     \<lparr>op_type = Retain, position = 0, content = None, op_length = None, extras = []\<rparr>"

text \<open>Socket \<open>a\<close> connects and joins session \<open>S1\<close> at time 100.\<close>

definition srv_joined :: server where
  "srv_joined = fst (run init_server [Connection ''a'', JoinSession ''a'' ''S1'' 100 100])"

definition socket_a :: AuthenticatedSocket where
  "socket_a = (connection ''a'')\<lparr>data_sessionId := Some ''S1'', rooms := {''S1'', ''a''}\<rparr>"

definition session_of_a :: CollaborationSession where
  "session_of_a =
     (new_session ''S1'' 100)\<lparr>participants := [(''a'', new_participant (connection ''a'') 100)]\<rparr>"

definition two_frames :: "event list" where
  "two_frames =
     [TextOperationFrame ''a'' frame_op7 1000 1001,
      TextOperationFrame ''a'' frame_retain 1002 1003]"

definition session_after_op7 :: CollaborationSession where
  "session_after_op7 =
     session_of_a
       \<lparr>currentContent := applyOperation (currentContent session_of_a)
          (completeOperation frame_op7 socket_a 1000 ''S1''),
        version := version session_of_a + 1,
        lastActivity := 1001\<rparr>"

text \<open>Socket \<open>a\<close> has connected and joined nothing.\<close>

definition srv_connected :: server where
  "srv_connected = fst (run init_server [Connection ''a''])"

text \<open>Socket \<open>b\<close> is bound to session \<open>S1\<close>, and no session \<open>S1\<close> is resident.\<close>

definition socket_b_bound :: AuthenticatedSocket where
  "socket_b_bound = (connection ''b'')\<lparr>data_sessionId := Some ''S1''\<rparr>"

definition srv_orphan :: server where
  "srv_orphan = \<lparr>activeSessions = Map.empty, sockets = [''b'' \<mapsto> socket_b_bound]\<rparr>"

text \<open>
  Socket \<open>b\<close> is bound to session \<open>S1\<close>, which is resident with \<open>a\<close> as its only
  participant.
\<close>

definition srv_stale :: server where
  "srv_stale =
     \<lparr>activeSessions = [''S1'' \<mapsto> session_of_a],
      sockets = [''a'' \<mapsto> socket_a, ''b'' \<mapsto> socket_b_bound]\<rparr>"

definition cursor_3_4 :: cursor_update_data where
  "cursor_3_4 = \<lparr>d_line = 3, d_column = 4, d_selection = None\<rparr>"

text \<open>
  Sockets \<open>a\<close> and \<open>b\<close> connect; \<open>a\<close> joins session \<open>S1\<close> at time 1 and \<open>b\<close> at
  time 2. \<open>srv_two\<close> is the server after these events.
\<close>

definition join_two :: "event list" where
  "join_two =
     [Connection ''a'', Connection ''b'',
      JoinSession ''a'' ''S1'' 1 1, JoinSession ''b'' ''S1'' 2 2]"

definition info_a :: "int \<Rightarrow> participant_info" where
  "info_a t = \<lparr>i_userId = ''a'', i_username = ''User-a'', i_joinedAt = t, i_cursor = None\<rparr>"

definition info_b :: "int \<Rightarrow> participant_info" where
  "info_b t = \<lparr>i_userId = ''b'', i_username = ''User-b'', i_joinedAt = t, i_cursor = None\<rparr>"

definition socket_b :: AuthenticatedSocket where
  "socket_b = (connection ''b'')\<lparr>data_sessionId := Some ''S1'', rooms := {''S1'', ''b''}\<rparr>"

definition session_two :: CollaborationSession where
  "session_two =
     (new_session ''S1'' 1)\<lparr>participants :=
        [(''a'', new_participant (connection ''a'') 1),
         (''b'', new_participant (connection ''b'') 2)]\<rparr>"

definition srv_two :: server where
  "srv_two =
     \<lparr>activeSessions = [''S1'' \<mapsto> session_two],
      sockets = [''a'' \<mapsto> socket_a, ''b'' \<mapsto> socket_b]\<rparr>"







text \<open>Sixty-one \<open>text-operation\<close> frames from socket \<open>a\<close>, all at the same clock value.\<close>

definition burst :: "event list" where
  "burst = replicate 61 (TextOperationFrame ''a'' frame_retain 1000 1000)"

section \<open>Facts about slicing\<close>

lemma slice_prefix: "0 \<le> p \<Longrightarrow> slice c 0 p = take (nat p) c"
  by (simp add: slice_def slice_index_def Let_def min_def)

lemma slice_from_suffix: "0 \<le> p \<Longrightarrow> slice_from c p = drop (nat p) c"
  by (simp add: slice_from_def slice_index_def min_def)

lemma slice_split: "0 \<le> p \<Longrightarrow> slice c 0 p @ slice_from c p = c"
  by (simp add: slice_prefix slice_from_suffix)

lemma slice_from_beyond: "int (length c) \<le> p \<Longrightarrow> slice_from c p = []"
  by (simp add: slice_from_def slice_index_def)

lemma slice_prefix_beyond: "int (length c) \<le> p \<Longrightarrow> slice c 0 p = c"
  by (simp add: slice_def slice_index_def Let_def)

section \<open>Clamping of out-of-range positions\<close>

text \<open>
  C4. For every content string and non-negative position: an insert at a position greater
  than the content length gives the same result as an insert at the content length (the
  payload is appended), and a delete whose position plus length exceeds the content
  length removes exactly the suffix of the content that starts at the position: the
  result is the prefix before the position, and putting the suffix back gives the
  content.
\<close>

theorem applyOperation_clamp:
  "(0 \<le> position operation \<and> int (length c) < position operation
      \<and> op_type operation = Insert
    \<longrightarrow> applyOperation c operation
          = applyOperation c (operation\<lparr>position := int (length c)\<rparr>)
        \<and> applyOperation c operation = c @ content_or_empty (content operation))
   \<and> (0 \<le> position operation
      \<and> int (length c) < position operation + length_or_zero (op_length operation)
      \<and> op_type operation = Delete
    \<longrightarrow> applyOperation c operation = take (nat (position operation)) c
        \<and> applyOperation c operation @ slice_from c (position operation) = c)"
proof (intro conjI impI)
  assume h: "0 \<le> position operation \<and> int (length c) < position operation
    \<and> op_type operation = Insert"
  then show "applyOperation c operation = c @ content_or_empty (content operation)"
    by (simp add: applyOperation_def slice_prefix_beyond slice_from_beyond)
  with h show "applyOperation c operation
      = applyOperation c (operation\<lparr>position := int (length c)\<rparr>)"
    by (simp add: applyOperation_def slice_prefix_beyond slice_from_beyond)
next
  assume h: "0 \<le> position operation
    \<and> int (length c) < position operation + length_or_zero (op_length operation)
    \<and> op_type operation = Delete"
  then show r: "applyOperation c operation = take (nat (position operation)) c"
    by (simp add: applyOperation_def slice_prefix slice_from_beyond)
  from h show "applyOperation c operation @ slice_from c (position operation) = c"
    unfolding r by (simp add: slice_from_suffix)
qed

theorem applyOperation_clamp_witness:
  "applyOperation ''abc'' op_insert_far = ''abcX''
   \<and> applyOperation ''abc'' op_insert_far
       = applyOperation ''abc'' (op_insert_far\<lparr>position := 3\<rparr>)
   \<and> applyOperation ''abcdef'' op_delete_far = ''abcd''
   \<and> applyOperation ''abcdef'' op_delete_far @ slice_from ''abcdef'' 4 = ''abcdef''"
  using applyOperation_clamp [of op_insert_far "''abc''"]
    applyOperation_clamp [of op_delete_far "''abcdef''"]
  by (simp add: op_insert_far_def op_delete_far_def content_or_empty_def length_or_zero_def
      applyOperation_def slice_def slice_from_def slice_index_def)

section \<open>Deletes without a usable length\<close>

text \<open>
  C5, as stated: for every content string and non-negative position, a delete whose length
  is missing or negative leaves the content unchanged. The negative half fails:
  \<open>operation.length || 0\<close> replaces a missing length only, and a negative length is added
  to the position as it is. Deleting at position 3 with length -2 in \<open>abcdef\<close> gives
  \<open>abc\<close> followed by \<open>bcdef\<close>.
\<close>

theorem delete_negative_length_counterexample:
  "op_type op_delete_negative = Delete \<and> 0 \<le> position op_delete_negative
   \<and> op_length op_delete_negative = Some (- 2)
   \<and> applyOperation ''abcdef'' op_delete_negative = ''abcbcdef''
   \<and> applyOperation ''abcdef'' op_delete_negative \<noteq> ''abcdef''"
  by (simp add: op_delete_negative_def applyOperation_def slice_def slice_from_def
      slice_index_def length_or_zero_def)

text \<open>
  C5, amended: for every content string and non-negative position, a delete whose length
  is missing (or zero) leaves the content unchanged; a negative length \<open>n\<close> is not treated
  as zero: when position + n is not negative, the result is the prefix before the
  position followed by the content from position + n on.
\<close>

theorem delete_without_length:
  "(0 \<le> position operation \<and> op_type operation = Delete
      \<and> (op_length operation = None \<or> op_length operation = Some 0)
    \<longrightarrow> applyOperation c operation = c)
   \<and> (0 \<le> position operation \<and> op_type operation = Delete
      \<and> op_length operation = Some n \<and> n < 0 \<and> 0 \<le> position operation + n
    \<longrightarrow> applyOperation c operation
        = take (nat (position operation)) c @ drop (nat (position operation + n)) c)"
  by (auto simp: applyOperation_def length_or_zero_def slice_split slice_prefix
      slice_from_suffix)

theorem delete_without_length_witness:
  "applyOperation ''abcdef'' op_delete_missing = ''abcdef''
   \<and> applyOperation ''abcdef'' op_delete_negative = ''abc'' @ ''bcdef''"
  using delete_without_length [where operation = op_delete_missing and c = "''abcdef''"]
    delete_without_length
      [where operation = op_delete_negative and n = "- 2" and c = "''abcdef''"]
  by (simp add: op_delete_missing_def op_delete_negative_def)

section \<open>The handlers, result by result\<close>

lemma text_operation_socket: "fst (snd (text_operation t1 t2 store socket operation)) = socket"
  by (simp add: text_operation_def Let_def split: option.splits)

lemma text_operation_store:
  "fst (text_operation t1 t2 store socket operation) =
     (case data_sessionId socket of
        None \<Rightarrow> store
      | Some sid \<Rightarrow>
          if sid = [] then store
          else (case store sid of
                  None \<Rightarrow> store
                | Some session \<Rightarrow>
                    store(sid \<mapsto> session
                      \<lparr>currentContent := applyOperation (currentContent session)
                          (completeOperation operation socket t1 sid),
                       version := version session + 1,
                       lastActivity := t2\<rparr>)))"
  by (simp add: text_operation_def Let_def split: option.splits)

lemma text_operation_other:
  "\<not> (data_sessionId socket = Some sid \<and> sid \<noteq> []) \<Longrightarrow>
   fst (text_operation t1 t2 store socket operation) sid = store sid"
proof (cases "data_sessionId socket")
  case None
  then show ?thesis by (simp add: text_operation_store)
next
  case (Some x)
  assume "\<not> (data_sessionId socket = Some sid \<and> sid \<noteq> [])"
  with Some have "x = [] \<or> x \<noteq> sid" by blast
  with Some show ?thesis
    by (cases "store x") (auto simp: text_operation_store)
qed

lemma join_session_store:
  "fst (join_session t1 t2 store socket sid)
     = store(sid \<mapsto> (resolve_session store sid t1)\<lparr>participants :=
         AList.update (sock_userId socket) (new_participant socket t2)
           (participants (resolve_session store sid t1))\<rparr>)"
  by (simp add: join_session_def Let_def)


lemma cursor_update_store:
  "fst (cursor_update now store socket d) =
     (case data_sessionId socket of
        None \<Rightarrow> store
      | Some sid \<Rightarrow>
          if sid = [] then store
          else (case store sid of
                  None \<Rightarrow> store
                | Some session \<Rightarrow>
                    (case map_of (participants session) (sock_userId socket) of
                       None \<Rightarrow> store
                     | Some participant \<Rightarrow>
                         store(sid \<mapsto> session\<lparr>participants :=
                           AList.update (sock_userId socket) (move_cursor d participant)
                             (participants session)\<rparr>))))"
  by (simp add: cursor_update_def Let_def split: option.splits)


lemma handleLeaveSession_store:
  "fst (handleLeaveSession store socket) =
     (case data_sessionId socket of
        None \<Rightarrow> store
      | Some sid \<Rightarrow>
          if sid = [] \<or> sock_userId socket = [] then store
          else (case store sid of
                  None \<Rightarrow> store
                | Some session \<Rightarrow>
                    if AList.delete (sock_userId socket) (participants session) = []
                    then store(sid := None)
                    else store(sid \<mapsto> session\<lparr>participants :=
                      AList.delete (sock_userId socket) (participants session)\<rparr>)))"
  by (simp add: handleLeaveSession_def Let_def split: option.splits)


section \<open>Steps of the server\<close>

lemma step_connected:
  "sockets srv s = Some socket \<Longrightarrow> event_socket ev = s \<Longrightarrow> \<forall>x. ev \<noteq> Disconnect x \<Longrightarrow>
   step srv ev = (case handle ev (activeSessions srv) socket of
      (store', socket', out) \<Rightarrow>
         (\<lparr>activeSessions = store', sockets = (sockets srv)(s \<mapsto> socket')\<rparr>, out))"
  by (cases ev) (simp_all add: step_def)

lemma step_unconnected:
  "sockets srv (event_socket ev) = None \<Longrightarrow> \<forall>s. ev \<noteq> Connection s \<Longrightarrow>
   \<forall>s old_rooms old_sessionId. ev \<noteq> Recovery s old_rooms old_sessionId \<Longrightarrow>
   step srv ev = (srv, [])"
  by (cases ev) (simp_all add: step_def)

lemma server_same:
  "sockets srv s = Some socket \<Longrightarrow>
   \<lparr>activeSessions = activeSessions srv, sockets = (sockets srv)(s \<mapsto> socket)\<rparr> = srv"
  by (simp add: fun_upd_idem)

lemma step_store:
  "sockets srv (event_socket ev) = Some socket \<Longrightarrow>
   activeSessions (fst (step srv ev)) = fst (handle ev (activeSessions srv) socket)"
  by (simp add: step_def split_beta)

lemma step_store_unconnected:
  "sockets srv (event_socket ev) = None \<Longrightarrow>
   activeSessions (fst (step srv ev)) = activeSessions srv"
  by (cases ev) (simp_all add: step_def)



lemma step_out:
  "sockets srv (event_socket ev) = Some socket \<Longrightarrow>
   snd (step srv ev) = snd (snd (handle ev (activeSessions srv) socket))"
  by (simp add: step_def split_beta)

lemma step_out_unconnected: "sockets srv (event_socket ev) = None \<Longrightarrow> snd (step srv ev) = []"
  by (cases ev) (simp_all add: step_def)

lemma step_text_frame:
  "sockets srv s = Some socket \<Longrightarrow>
   fst (step srv (TextOperationFrame s operation t1 t2))
     = \<lparr>activeSessions = fst (text_operation t1 t2 (activeSessions srv) socket operation),
        sockets = sockets srv\<rparr>"
  using text_operation_socket [of t1 t2 "activeSessions srv" socket operation]
  by (simp add: step_connected split_beta fun_upd_idem)

lemma srv_joined_eq:
  "srv_joined = \<lparr>activeSessions = [''S1'' \<mapsto> session_of_a], sockets = [''a'' \<mapsto> socket_a]\<rparr>"
  by (simp add: srv_joined_def init_server_def step_def join_session_def resolve_session_def
      session_of_a_def socket_a_def connection_def new_session_def new_participant_def Let_def)

lemma srv_connected_eq:
  "srv_connected = \<lparr>activeSessions = Map.empty, sockets = [''a'' \<mapsto> connection ''a'']\<rparr>"
  by (simp add: srv_connected_def init_server_def step_def)

section \<open>Folding the text operations of a session\<close>

lemma stamped_cong: "sockets srv' = sockets srv \<Longrightarrow> stamped srv' sid = stamped srv sid"
proof
  fix ev assume "sockets srv' = sockets srv"
  then show "stamped srv' sid ev = stamped srv sid ev" by (cases ev) simp_all
qed

lemma text_frame_sockets:
  "is_text_frame ev \<Longrightarrow> sockets (fst (step srv ev)) = sockets srv"
proof (cases ev)
  case (TextOperationFrame s operation t1 t2)
  then show ?thesis
    by (cases "sockets srv s") (simp_all add: step_unconnected step_text_frame)
qed simp_all

lemma text_frame_session:
  assumes "is_text_frame ev" and "activeSessions srv sid = Some session"
  shows "\<exists>session'. activeSessions (fst (step srv ev)) sid = Some session'
     \<and> currentContent session'
         = foldl applyOperation (currentContent session) (stamped srv sid ev)
     \<and> version session' = version session + int (length (stamped srv sid ev))"
proof (cases ev)
  case ev: (TextOperationFrame s operation t1 t2)
  show ?thesis
  proof (cases "sockets srv s")
    case None
    with assms ev show ?thesis by (simp add: step_unconnected)
  next
    case (Some socket)
    show ?thesis
    proof (cases "data_sessionId socket = Some sid \<and> sid \<noteq> []")
      case True
      with assms ev Some show ?thesis
        by (simp add: step_text_frame text_operation_store)
    next
      case False
      then have "stamped srv sid ev = []" using ev Some by simp
      with assms ev Some False show ?thesis
        by (simp add: step_text_frame text_operation_other)
    qed
  qed
qed (use assms in simp_all)

lemma text_frames_fold:
  "\<forall>ev \<in> set evs. is_text_frame ev \<Longrightarrow> activeSessions srv sid = Some session \<Longrightarrow>
   map_option currentContent (activeSessions (fst (run srv evs)) sid)
     = Some (foldl applyOperation (currentContent session) (operations_for srv sid evs))
   \<and> map_option version (activeSessions (fst (run srv evs)) sid)
     = Some (version session + int (length (operations_for srv sid evs)))"
proof (induction evs arbitrary: srv session)
  case Nil
  then show ?case by (simp add: operations_for_def)
next
  case (Cons ev evs)
  obtain srv' out where st: "step srv ev = (srv', out)" by (cases "step srv ev")
  obtain srv'' out' where rn: "run srv' evs = (srv'', out')" by (cases "run srv' evs")
  from Cons.prems have tf: "is_text_frame ev" by simp
  have so: "sockets srv' = sockets srv" using text_frame_sockets [OF tf, of srv] st by simp
  obtain session' where s': "activeSessions srv' sid = Some session'"
    and c': "currentContent session'
      = foldl applyOperation (currentContent session) (stamped srv sid ev)"
    and v': "version session' = version session + int (length (stamped srv sid ev))"
    using text_frame_session [OF tf Cons.prems(2)] st by auto
  from Cons.prems have "\<forall>ev \<in> set evs. is_text_frame ev" by simp
  from Cons.IH [OF this s'] rn so c' v'
  show ?case
    by (simp add: st operations_for_def stamped_cong [OF so] add.assoc)
qed

lemma operations_for_length:
  "\<forall>ev \<in> set evs. frame_for srv sid ev \<Longrightarrow> length (operations_for srv sid evs) = length evs"
  by (induction evs) (auto simp: operations_for_def frame_for_def)

lemma handle_version_mono:
  assumes "store sid = Some session" and "fst (handle ev store socket) sid = Some session'"
  shows "version session \<le> version session'"
proof (cases ev)
  case (JoinSession s sid' t1 t2)
  with assms show ?thesis
    by (cases "sid' = sid") (auto simp: join_session_store resolve_session_def)
next
  case (TextOperationFrame s operation t1 t2)
  with assms show ?thesis
    by (auto simp: text_operation_store split: option.splits if_splits)
next
  case (CursorUpdate s d now)
  with assms show ?thesis
    by (auto simp: cursor_update_store split: option.splits if_splits)
next
  case (LeaveSession s)
  with assms show ?thesis
    by (auto simp: handleLeaveSession_store split: option.splits if_splits)
next
  case (Disconnect s)
  with assms show ?thesis
    by (auto simp: handleLeaveSession_store split: option.splits if_splits)
qed (use assms in \<open>simp_all add: test_event_def\<close>)

lemma step_version_mono:
  assumes "activeSessions srv sid = Some session"
    and "activeSessions (fst (step srv ev)) sid = Some session'"
  shows "version session \<le> version session'"
proof (cases "sockets srv (event_socket ev)")
  case None
  with assms show ?thesis by (simp add: step_store_unconnected)
next
  case (Some socket)
  with assms show ?thesis by (simp add: step_store handle_version_mono)
qed

section \<open>Content and version after a sequence of text operations\<close>

text \<open>
  C1. For every session and every sequence of N \<open>text-operation\<close> frames processed for it
  (each arrives on a connected socket bound to the session): the final content is the
  left fold of \<open>applyOperation\<close> over the initial content, with the stamped operations in
  receipt order; the final version is the initial version plus N. The version of a
  resident session never decreases, whatever event the server processes.
\<close>

theorem text_operations_in_receipt_order:
  "(activeSessions srv sid = Some session \<and> (\<forall>ev \<in> set evs. frame_for srv sid ev)
    \<longrightarrow> map_option currentContent (activeSessions (fst (run srv evs)) sid)
          = Some (foldl applyOperation (currentContent session) (operations_for srv sid evs))
        \<and> length (operations_for srv sid evs) = length evs
        \<and> map_option version (activeSessions (fst (run srv evs)) sid)
          = Some (version session + int (length evs)))
   \<and> (activeSessions srv sid = Some session
    \<longrightarrow> (\<forall>session'. activeSessions (fst (step srv ev)) sid = Some session'
          \<longrightarrow> version session \<le> version session'))"
proof (intro conjI impI allI)
  assume h: "activeSessions srv sid = Some session \<and> (\<forall>ev \<in> set evs. frame_for srv sid ev)"
  then have tf: "\<forall>ev \<in> set evs. is_text_frame ev" by (simp add: frame_for_def)
  from h have len: "length (operations_for srv sid evs) = length evs"
    by (simp add: operations_for_length)
  from h text_frames_fold [OF tf, of srv sid session]
  show "map_option currentContent (activeSessions (fst (run srv evs)) sid)
      = Some (foldl applyOperation (currentContent session) (operations_for srv sid evs))"
    by simp
  from len show "length (operations_for srv sid evs) = length evs" .
  from h len text_frames_fold [OF tf, of srv sid session]
  show "map_option version (activeSessions (fst (run srv evs)) sid)
      = Some (version session + int (length evs))"
    by simp
next
  fix session'
  assume "activeSessions srv sid = Some session"
    and "activeSessions (fst (step srv ev)) sid = Some session'"
  then show "version session \<le> version session'" by (rule step_version_mono)
qed

theorem text_operations_in_receipt_order_witness:
  "map_option currentContent (activeSessions (fst (run srv_joined two_frames)) ''S1'')
     = Some (''x'' @ default_content)
   \<and> length (operations_for srv_joined ''S1'' two_frames) = 2
   \<and> map_option version (activeSessions (fst (run srv_joined two_frames)) ''S1'') = Some 3
   \<and> version session_of_a \<le> version session_after_op7"
proof -
  have r: "activeSessions srv_joined ''S1'' = Some session_of_a"
    by (simp add: srv_joined_eq)
  have f: "\<forall>ev \<in> set two_frames. frame_for srv_joined ''S1'' ev"
    by (simp add: two_frames_def frame_for_def srv_joined_eq socket_a_def)
  have o: "operations_for srv_joined ''S1'' two_frames
      = [completeOperation frame_op7 socket_a 1000 ''S1'',
         completeOperation frame_retain socket_a 1002 ''S1'']"
    by (simp add: two_frames_def operations_for_def srv_joined_eq socket_a_def)
  have c: "foldl applyOperation (currentContent session_of_a)
      [completeOperation frame_op7 socket_a 1000 ''S1'',
       completeOperation frame_retain socket_a 1002 ''S1''] = ''x'' @ default_content"
    by (simp add: completeOperation_def applyOperation_def frame_op7_def frame_retain_def
        slice_def slice_from_def slice_index_def content_or_empty_def session_of_a_def
        new_session_def)
  have v: "version session_of_a + int (length two_frames) = 3"
    by (simp add: session_of_a_def new_session_def two_frames_def)
  have a: "activeSessions (fst (step srv_joined (TextOperationFrame ''a'' frame_op7 1000 1001)))
      ''S1'' = Some session_after_op7"
    by (simp add: srv_joined_eq step_text_frame text_operation_store socket_a_def
        session_after_op7_def)
  note t = text_operations_in_receipt_order
    [where srv = srv_joined and sid = "''S1''" and session = session_of_a
       and evs = two_frames and ev = "TextOperationFrame ''a'' frame_op7 1000 1001"]
  from t [THEN conjunct1, THEN mp, OF conjI [OF r f]]
    t [THEN conjunct2, THEN mp, OF r, THEN spec, THEN mp, OF a]
  show ?thesis unfolding o c v by (simp add: two_frames_def)
qed

section \<open>The acknowledgment of a text operation\<close>

text \<open>
  C2, as stated: the acknowledgment of an applied text operation carries the issuer's
  original client-local operation identifier. It does not: the frame type has no such
  field, and \<open>operationId\<close> is the timestamp the server stamped on the operation. Two
  frames that differ in the identifier the client put on them, received at the same
  clock value, are acknowledged by the same message.
\<close>

theorem acknowledgment_counterexample:
  "extras frame_op7 = [(''clientOpId'', JNum 7)]
   \<and> extras frame_op8 = [(''clientOpId'', JNum 8)]
   \<and> snd (step srv_joined (TextOperationFrame ''a'' frame_op7 1000 1001)) ! 1
       = ToSocket ''a'' (OperationAcknowledged 1000 2)
   \<and> snd (step srv_joined (TextOperationFrame ''a'' frame_op8 1000 1001)) ! 1
       = ToSocket ''a'' (OperationAcknowledged 1000 2)"
  by (simp add: srv_joined_eq step_def text_operation_def Let_def completeOperation_def
      frame_op7_def frame_op8_def socket_a_def connection_def session_of_a_def
      new_session_def)

text \<open>
  C2, amended: for every successfully applied text operation, the acknowledgment sent to
  the issuer carries, as \<open>operationId\<close>, the timestamp the server stamped on the operation
  (the clock value read at receipt), together with the new version, which is the
  session's version plus one. The handler emits the broadcast of the stamped operation to
  the others, then this acknowledgment, and nothing else.
\<close>

theorem acknowledgment_payload:
  "sockets srv s = Some socket \<Longrightarrow> data_sessionId socket = Some sid \<Longrightarrow> sid \<noteq> [] \<Longrightarrow>
   activeSessions srv sid = Some session \<Longrightarrow>
   snd (step srv (TextOperationFrame s operation t_stamp t_activity))
     = [ToOthers sid (sock_id socket)
          (OperationApplied (completeOperation operation socket t_stamp sid)),
        ToSocket (sock_id socket) (OperationAcknowledged t_stamp (version session + 1))]
   \<and> map_option version
        (activeSessions (fst (step srv (TextOperationFrame s operation t_stamp t_activity))) sid)
     = Some (version session + 1)"
  by (simp add: step_connected text_operation_def Let_def completeOperation_def)

theorem acknowledgment_payload_witness:
  "snd (step srv_joined (TextOperationFrame ''a'' frame_op7 1000 1001))
     = [ToOthers ''S1'' ''a''
          (OperationApplied (completeOperation frame_op7 socket_a 1000 ''S1'')),
        ToSocket ''a'' (OperationAcknowledged 1000 2)]
   \<and> map_option version
        (activeSessions (fst (step srv_joined (TextOperationFrame ''a'' frame_op7 1000 1001)))
           ''S1'')
     = Some 2"
  using acknowledgment_payload
    [where srv = srv_joined and s = "''a''" and socket = socket_a and sid = "''S1''"
       and session = session_of_a and operation = frame_op7 and t_stamp = 1000
       and t_activity = 1001]
  by (simp add: srv_joined_eq socket_a_def connection_def session_of_a_def new_session_def)

section \<open>Text operations outside a session\<close>

text \<open>
  C6. When a \<open>text-operation\<close> frame arrives on a connection with no bound session id
  (\<open>undefined\<close>, or the empty string, which is as false), or whose bound session id has no
  resident session, the server state is left as it was (no content, version, participant
  or activity time changes), the only message emitted is an error to the sender, and no
  other socket receives anything.
\<close>

theorem text_operation_without_session:
  "(sockets srv s = Some socket
      \<and> (data_sessionId socket = None \<or> data_sessionId socket = Some [])
    \<longrightarrow> step srv (TextOperationFrame s operation t_stamp t_activity)
        = (srv, [ToSocket (sock_id socket) (ErrorMessage ''Not in a session'')]))
   \<and> (sockets srv s = Some socket \<and> data_sessionId socket = Some sid \<and> sid \<noteq> []
      \<and> activeSessions srv sid = None
    \<longrightarrow> step srv (TextOperationFrame s operation t_stamp t_activity)
        = (srv, [ToSocket (sock_id socket) (ErrorMessage ''Session not found'')]))
   \<and> (sockets srv s = Some socket
      \<and> (data_sessionId socket = None \<or> data_sessionId socket = Some []
          \<or> (\<exists>sid. data_sessionId socket = Some sid \<and> activeSessions srv sid = None))
    \<longrightarrow> (\<forall>e \<in> set (snd (step srv (TextOperationFrame s operation t_stamp t_activity))).
          \<forall>r. receives srv r e \<longrightarrow> r = sock_id socket))"
proof -
  let ?ev = "TextOperationFrame s operation t_stamp t_activity"
  have a: "step srv ?ev = (srv, [ToSocket (sock_id socket) (ErrorMessage ''Not in a session'')])"
    if "sockets srv s = Some socket"
      and "data_sessionId socket = None \<or> data_sessionId socket = Some []"
    using that by (auto simp: step_connected text_operation_def server_same)
  have b: "step srv ?ev = (srv, [ToSocket (sock_id socket) (ErrorMessage ''Session not found'')])"
    if "sockets srv s = Some socket" and "data_sessionId socket = Some sid'" and "sid' \<noteq> []"
      and "activeSessions srv sid' = None" for sid'
    using that by (simp add: step_connected text_operation_def server_same)
  have c: "\<forall>e \<in> set (snd (step srv ?ev)). \<forall>r. receives srv r e \<longrightarrow> r = sock_id socket"
    if s: "sockets srv s = Some socket"
      and d: "data_sessionId socket = None \<or> data_sessionId socket = Some []
          \<or> (\<exists>sid. data_sessionId socket = Some sid \<and> activeSessions srv sid = None)"
  proof (cases "data_sessionId socket = None \<or> data_sessionId socket = Some []")
    case True
    then show ?thesis by (simp add: a [OF s])
  next
    case False
    with d obtain sid' where "data_sessionId socket = Some sid'" "sid' \<noteq> []"
      "activeSessions srv sid' = None" by auto
    then show ?thesis by (simp add: b [OF s])
  qed
  from a b c show ?thesis by blast
qed

theorem text_operation_without_session_witness:
  "step srv_connected (TextOperationFrame ''a'' frame_op7 1000 1001)
     = (srv_connected, [ToSocket ''a'' (ErrorMessage ''Not in a session'')])
   \<and> step srv_orphan (TextOperationFrame ''b'' frame_op7 1000 1001)
     = (srv_orphan, [ToSocket ''b'' (ErrorMessage ''Session not found'')])"
proof -
  have c: "sockets srv_connected ''a'' = Some (connection ''a'')
      \<and> (data_sessionId (connection ''a'') = None
          \<or> data_sessionId (connection ''a'') = Some [])"
    by (simp add: srv_connected_eq connection_def)
  have o: "sockets srv_orphan ''b'' = Some socket_b_bound
      \<and> data_sessionId socket_b_bound = Some ''S1'' \<and> ''S1'' \<noteq> []
      \<and> activeSessions srv_orphan ''S1'' = None"
    by (simp add: srv_orphan_def socket_b_bound_def)
  have i: "sock_id (connection ''a'') = ''a''" "sock_id socket_b_bound = ''b''"
    by (simp_all add: connection_def socket_b_bound_def)
  note t = text_operation_without_session
    [where operation = frame_op7 and t_stamp = 1000 and t_activity = 1001]
  from t [where srv = srv_connected and s = "''a''" and socket = "connection ''a''",
      THEN conjunct1, THEN mp, OF c]
    t [where srv = srv_orphan and s = "''b''" and socket = socket_b_bound
        and sid = "''S1''", THEN conjunct2, THEN conjunct1, THEN mp, OF o]
  show ?thesis unfolding i by blast
qed

section \<open>Cursor updates of a non-participant\<close>

text \<open>
  C9, as stated: a \<open>cursor-update\<close> from an identity that is not a current participant of
  the bound session is silently ignored, with no \<open>cursor-moved\<close> broadcast. The guard
  \<open>if (participant)\<close> covers the update of the participant only; the broadcast comes
  after it, unguarded. With \<open>b\<close> bound to \<open>S1\<close> and only \<open>a\<close> a participant, a cursor
  update from \<open>b\<close> is broadcast to the room, and \<open>a\<close> receives it.
\<close>

theorem cursor_update_non_participant_counterexample:
  "map_of (participants session_of_a) ''b'' = None
   \<and> activeSessions srv_stale ''S1'' = Some session_of_a
   \<and> map_option data_sessionId (sockets srv_stale ''b'') = Some (Some ''S1'')
   \<and> snd (step srv_stale (CursorUpdate ''b'' cursor_3_4 5))
       = [ToOthers ''S1'' ''b'' (CursorMoved ''b'' ''User-b'' cursor_3_4 5)]
   \<and> receives srv_stale ''a''
       (ToOthers ''S1'' ''b'' (CursorMoved ''b'' ''User-b'' cursor_3_4 5))"
  by (simp add: srv_stale_def step_def cursor_update_def Let_def session_of_a_def
      socket_a_def socket_b_bound_def connection_def new_session_def new_participant_def
      slice_def slice_index_def)

text \<open>
  C9, amended: a \<open>cursor-update\<close> from an identity that is not a current participant of
  the bound session changes no state (no participant's cursor or selection, no session,
  no socket); the \<open>cursor-moved\<close> event is still broadcast to the other sockets of the
  session's room.
\<close>

theorem cursor_update_non_participant:
  "sockets srv s = Some socket \<Longrightarrow> data_sessionId socket = Some sid \<Longrightarrow> sid \<noteq> [] \<Longrightarrow>
   activeSessions srv sid = Some session \<Longrightarrow>
   map_of (participants session) (sock_userId socket) = None \<Longrightarrow>
   step srv (CursorUpdate s d now)
     = (srv, [ToOthers sid (sock_id socket)
                (CursorMoved (sock_userId socket) (sock_username socket) d now)])"
  by (simp add: step_connected cursor_update_def Let_def server_same)

theorem cursor_update_non_participant_witness:
  "step srv_stale (CursorUpdate ''b'' cursor_3_4 5)
     = (srv_stale, [ToOthers ''S1'' ''b'' (CursorMoved ''b'' ''User-b'' cursor_3_4 5)])"
  using cursor_update_non_participant
    [where srv = srv_stale and s = "''b''" and socket = socket_b_bound and sid = "''S1''"
       and session = session_of_a and d = cursor_3_4 and now = 5]
  by (simp add: srv_stale_def socket_b_bound_def connection_def session_of_a_def
      new_session_def new_participant_def slice_def slice_index_def)

section \<open>Sessions are removed with their last participant\<close>

lemma handle_no_empty:
  assumes "no_empty_session store"
  shows "no_empty_session (fst (handle ev store socket))"
proof (cases ev)
  case (JoinSession s sid t1 t2)
  with assms show ?thesis
    by (simp add: no_empty_session_def join_session_store)
next
  case (TextOperationFrame s operation t1 t2)
  with assms show ?thesis
    by (auto simp: no_empty_session_def text_operation_store split: option.splits if_splits)
next
  case (CursorUpdate s d now)
  with assms show ?thesis
    by (auto simp: no_empty_session_def cursor_update_store split: option.splits if_splits)
next
  case (LeaveSession s)
  with assms show ?thesis
    by (auto simp: no_empty_session_def handleLeaveSession_store split: option.splits if_splits)
next
  case (Disconnect s)
  with assms show ?thesis
    by (auto simp: no_empty_session_def handleLeaveSession_store split: option.splits if_splits)
qed (use assms in \<open>simp_all add: test_event_def\<close>)

lemma step_no_empty:
  "no_empty_session (activeSessions srv) \<Longrightarrow> no_empty_session (activeSessions (fst (step srv ev)))"
  by (cases "sockets srv (event_socket ev)")
    (simp_all add: step_store_unconnected step_store handle_no_empty)

lemma run_no_empty:
  "no_empty_session (activeSessions srv) \<Longrightarrow> no_empty_session (activeSessions (fst (run srv evs)))"
proof (induction evs arbitrary: srv)
  case Nil
  then show ?case by simp
next
  case (Cons ev evs)
  from Cons.IH [OF step_no_empty [OF Cons.prems, of ev]]
  show ?case by (simp add: split_beta)
qed

lemma leave_last_participant:
  assumes "sockets srv s = Some socket" and "data_sessionId socket = Some sid" and "sid \<noteq> []"
    and "sock_userId socket \<noteq> []" and "activeSessions srv sid = Some session"
    and "AList.delete (sock_userId socket) (participants session) = []"
    and "ev = LeaveSession s \<or> ev = Disconnect s"
  shows "activeSessions (fst (step srv ev)) sid = None"
  using assms by (auto simp: step_store handleLeaveSession_store)

lemma join_fresh:
  assumes "activeSessions srv sid = None" and "sockets srv s = Some socket"
  shows "step srv (JoinSession s sid t1 t2)
    = (\<lparr>activeSessions = (activeSessions srv)(sid \<mapsto>
          (new_session sid t1)\<lparr>participants :=
             [(sock_userId socket, new_participant socket t2)]\<rparr>),
        sockets = (sockets srv)(s \<mapsto>
          socket\<lparr>rooms := insert sid (rooms socket), data_sessionId := Some sid\<rparr>)\<rparr>,
       [ToSocket (sock_id socket)
          (SessionJoined sid default_content 1 [info_of (new_participant socket t2)]),
        ToOthers sid (sock_id socket)
          (ParticipantJoined (sock_userId socket) (sock_username socket) t2)])"
  using assms
  by (simp add: step_connected join_session_def resolve_session_def Let_def new_session_def
      new_participant_def)

lemma srv_left_eq: "fst (step srv_joined (LeaveSession ''a'')) = srv_connected"
  by (simp add: srv_joined_eq srv_connected_eq step_def handleLeaveSession_def Let_def
      socket_a_def session_of_a_def new_session_def new_participant_def connection_def)

text \<open>
  C7. In every state the server reaches, no resident session has an empty participant
  map. A leave or a disconnect that removes a session's last participant (the handler
  reaches the removal, and nothing remains after it) removes the session from
  \<open>activeSessions\<close>. A join to a session id with no resident session creates a session
  with the default content and version 1, and the \<open>session-joined\<close> payload carries
  them, with the joining user as the only participant.
\<close>

theorem session_cleanup:
  "(\<forall>sid session. activeSessions (fst (run init_server evs)) sid = Some session
      \<longrightarrow> participants session \<noteq> [])
   \<and> (sockets srv s = Some socket \<and> data_sessionId socket = Some sid \<and> sid \<noteq> []
      \<and> sock_userId socket \<noteq> [] \<and> activeSessions srv sid = Some session
      \<and> AList.delete (sock_userId socket) (participants session) = []
      \<and> (ev = LeaveSession s \<or> ev = Disconnect s)
    \<longrightarrow> activeSessions (fst (step srv ev)) sid = None)
   \<and> (activeSessions srv' sid' = None \<and> sockets srv' s' = Some socket'
    \<longrightarrow> map_option currentContent
          (activeSessions (fst (step srv' (JoinSession s' sid' t1 t2))) sid')
          = Some default_content
        \<and> map_option version
          (activeSessions (fst (step srv' (JoinSession s' sid' t1 t2))) sid') = Some 1
        \<and> hd (snd (step srv' (JoinSession s' sid' t1 t2)))
          = ToSocket (sock_id socket')
              (SessionJoined sid' default_content 1 [info_of (new_participant socket' t2)]))"
proof (intro conjI impI allI)
  fix sid session
  assume "activeSessions (fst (run init_server evs)) sid = Some session"
  moreover have "no_empty_session (activeSessions (fst (run init_server evs)))"
    by (rule run_no_empty) (simp add: no_empty_session_def init_server_def)
  ultimately show "participants session \<noteq> []" by (simp add: no_empty_session_def)
next
  assume "sockets srv s = Some socket \<and> data_sessionId socket = Some sid \<and> sid \<noteq> []
      \<and> sock_userId socket \<noteq> [] \<and> activeSessions srv sid = Some session
      \<and> AList.delete (sock_userId socket) (participants session) = []
      \<and> (ev = LeaveSession s \<or> ev = Disconnect s)"
  then show "activeSessions (fst (step srv ev)) sid = None"
    using leave_last_participant [of srv s socket sid session ev] by fast
next
  assume h: "activeSessions srv' sid' = None \<and> sockets srv' s' = Some socket'"
  then have j: "step srv' (JoinSession s' sid' t1 t2)
    = (\<lparr>activeSessions = (activeSessions srv')(sid' \<mapsto>
          (new_session sid' t1)\<lparr>participants :=
             [(sock_userId socket', new_participant socket' t2)]\<rparr>),
        sockets = (sockets srv')(s' \<mapsto>
          socket'\<lparr>rooms := insert sid' (rooms socket'), data_sessionId := Some sid'\<rparr>)\<rparr>,
       [ToSocket (sock_id socket')
          (SessionJoined sid' default_content 1 [info_of (new_participant socket' t2)]),
        ToOthers sid' (sock_id socket')
          (ParticipantJoined (sock_userId socket') (sock_username socket') t2)])"
    by (simp add: join_fresh)
  show "map_option currentContent
          (activeSessions (fst (step srv' (JoinSession s' sid' t1 t2))) sid')
          = Some default_content"
    unfolding j by (simp add: new_session_def)
  show "map_option version
          (activeSessions (fst (step srv' (JoinSession s' sid' t1 t2))) sid') = Some 1"
    unfolding j by (simp add: new_session_def)
  show "hd (snd (step srv' (JoinSession s' sid' t1 t2)))
          = ToSocket (sock_id socket')
              (SessionJoined sid' default_content 1 [info_of (new_participant socket' t2)])"
    unfolding j by simp
qed

theorem session_cleanup_witness:
  "participants session_of_a \<noteq> []
   \<and> activeSessions (fst (step srv_joined (LeaveSession ''a''))) ''S1'' = None
   \<and> fst (step srv_joined (LeaveSession ''a'')) = srv_connected
   \<and> map_option currentContent
       (activeSessions (fst (step srv_connected (JoinSession ''a'' ''S1'' 200 201))) ''S1'')
       = Some default_content
   \<and> map_option version
       (activeSessions (fst (step srv_connected (JoinSession ''a'' ''S1'' 200 201))) ''S1'')
       = Some 1
   \<and> hd (snd (step srv_connected (JoinSession ''a'' ''S1'' 200 201)))
       = ToSocket ''a'' (SessionJoined ''S1'' default_content 1 [info_a 201])"
proof -
  have r: "activeSessions (fst (run init_server [Connection ''a'', JoinSession ''a'' ''S1'' 100 100]))
      ''S1'' = Some session_of_a"
    using srv_joined_eq by (simp add: srv_joined_def)
  have l: "sockets srv_joined ''a'' = Some socket_a \<and> data_sessionId socket_a = Some ''S1''
      \<and> ''S1'' \<noteq> [] \<and> sock_userId socket_a \<noteq> []
      \<and> activeSessions srv_joined ''S1'' = Some session_of_a
      \<and> AList.delete (sock_userId socket_a) (participants session_of_a) = []
      \<and> (LeaveSession ''a'' = LeaveSession ''a'' \<or> LeaveSession ''a'' = Disconnect ''a'')"
    by (simp add: srv_joined_eq socket_a_def connection_def session_of_a_def)
  have c: "activeSessions srv_connected ''S1'' = None
      \<and> sockets srv_connected ''a'' = Some (connection ''a'')"
    by (simp add: srv_connected_eq)
  have i: "sock_id (connection ''a'') = ''a''"
    "info_of (new_participant (connection ''a'') 201) = info_a 201"
    by (simp_all add: connection_def info_of_def new_participant_def info_a_def
        slice_def slice_index_def)
  note t = session_cleanup
    [where evs = "[Connection ''a'', JoinSession ''a'' ''S1'' 100 100]"
       and srv = srv_joined and s = "''a''" and socket = socket_a and sid = "''S1''"
       and session = session_of_a and ev = "LeaveSession ''a''"
       and srv' = srv_connected and sid' = "''S1''" and s' = "''a''"
       and socket' = "connection ''a''" and ?t1.0 = 200 and ?t2.0 = 201]
  from t [THEN conjunct1, THEN spec, THEN spec, THEN mp, OF r]
    t [THEN conjunct2, THEN conjunct1, THEN mp, OF l]
    t [THEN conjunct2, THEN conjunct2, THEN mp, OF c]
  show ?thesis unfolding i by (simp add: srv_left_eq)
qed

section \<open>The order of participants in the \<open>session-joined\<close> payload\<close>

lemma update_absent: "map_of al k = None \<Longrightarrow> AList.update k v al = al @ [(k, v)]"
  by (induction al) (auto split: if_splits)

lemma update_present_map:
  "map_of al k = Some p \<Longrightarrow> f v = f p \<Longrightarrow>
   map (f \<circ> snd) (AList.update k v al) = map (f \<circ> snd) al"
  by (induction al) (auto split: if_splits)

lemma update_present_set:
  "map_of al k = Some p \<Longrightarrow> f v = f p \<Longrightarrow> x \<in> set (AList.update k v al) \<Longrightarrow>
   \<exists>y \<in> set al. f (snd x) = f (snd y)"
  by (induction al) (auto split: if_splits)

lemma delete_sorted:
  "sorted (map (f \<circ> snd) al) \<Longrightarrow> sorted (map (f \<circ> snd) (AList.delete k al))"
  by (simp add: AList.delete_eq sorted_filter)

lemma delete_subset: "set (AList.delete k al) \<subseteq> set al"
  by (auto simp: AList.delete_eq)

lemma move_cursor_joinedAt: "joinedAt (move_cursor d p) = joinedAt p"
  by (simp add: move_cursor_def)

lemma handle_join_ordered:
  assumes "join_ordered store" and "\<forall>s sid t1 t2. ev \<noteq> JoinSession s sid t1 t2"
  shows "join_ordered (fst (handle ev store socket))"
proof (cases ev)
  case (JoinSession s sid t1 t2)
  with assms show ?thesis by simp
next
  case (TextOperationFrame s operation t1 t2)
  with assms show ?thesis
    by (auto simp: join_ordered_def text_operation_store split: option.splits if_splits)
next
  case (CursorUpdate s d now)
  with assms show ?thesis
    by (auto simp: join_ordered_def cursor_update_store update_present_map move_cursor_joinedAt
        split: option.splits if_splits)
next
  case (LeaveSession s)
  with assms show ?thesis
    by (auto simp: join_ordered_def handleLeaveSession_store delete_sorted
        split: option.splits if_splits)
next
  case (Disconnect s)
  with assms show ?thesis
    by (auto simp: join_ordered_def handleLeaveSession_store delete_sorted
        split: option.splits if_splits)
qed (use assms in \<open>simp_all add: test_event_def\<close>)

lemma handle_joined_before:
  assumes "joined_before store t" and "\<forall>s sid t1 t2. ev \<noteq> JoinSession s sid t1 t2"
  shows "joined_before (fst (handle ev store socket)) t"
proof (cases ev)
  case (JoinSession s sid t1 t2)
  with assms show ?thesis by simp
next
  case (TextOperationFrame s operation t1 t2)
  with assms show ?thesis
    by (auto simp: joined_before_def text_operation_store split: option.splits if_splits)
next
  case ev: (CursorUpdate s d now)
  show ?thesis
    unfolding joined_before_def
  proof (intro allI impI ballI)
    fix sid session x
    assume r: "fst (handle ev store socket) sid = Some session" and x: "x \<in> set (participants session)"
    show "joinedAt (snd x) \<le> t"
    proof (cases "store sid = Some session")
      case True
      with assms x show ?thesis by (auto simp: joined_before_def)
    next
      case False
      with r ev obtain old p where o: "store sid = Some old"
        and p: "map_of (participants old) (sock_userId socket) = Some p"
        and n: "participants session
          = AList.update (sock_userId socket) (move_cursor d p) (participants old)"
        by (auto simp: cursor_update_store split: option.splits if_splits)
      from update_present_set [where f = joinedAt, OF p move_cursor_joinedAt, of x d] x n
      obtain y where "y \<in> set (participants old)" "joinedAt (snd x) = joinedAt (snd y)"
        by auto
      with assms o show ?thesis by (auto simp: joined_before_def)
    qed
  qed
next
  case (LeaveSession s)
  with assms delete_subset show ?thesis
    by (fastforce simp: joined_before_def handleLeaveSession_store
        split: option.splits if_splits)
next
  case (Disconnect s)
  with assms delete_subset show ?thesis
    by (fastforce simp: joined_before_def handleLeaveSession_store
        split: option.splits if_splits)
qed (use assms in \<open>simp_all add: test_event_def\<close>)

lemma resolve_session_ordered:
  assumes "join_ordered store"
  shows "sorted (map (joinedAt \<circ> snd) (participants (resolve_session store sid t1)))"
  using assms
  by (simp add: join_ordered_def resolve_session_def new_session_def split: option.splits)

lemma resolve_session_before:
  assumes "joined_before store t"
  shows "\<forall>p \<in> set (participants (resolve_session store sid t1)). joinedAt (snd p) \<le> t"
  using assms
  by (auto simp: joined_before_def resolve_session_def new_session_def split: option.splits)

lemma joinedAt_new_participant: "joinedAt (new_participant socket t) = t"
  by (simp add: new_participant_def)

lemma join_session_result:
  "join_session t1 t2 store socket sid =
     (store(sid \<mapsto> session_after_join store socket sid t1 t2),
      socket\<lparr>rooms := insert sid (rooms socket), data_sessionId := Some sid\<rparr>,
      [ToSocket (sock_id socket)
         (SessionJoined sid (currentContent (session_after_join store socket sid t1 t2))
            (version (session_after_join store socket sid t1 t2))
            (map (info_of \<circ> snd) (participants (session_after_join store socket sid t1 t2)))),
       ToOthers sid (sock_id socket)
         (ParticipantJoined (sock_userId socket) (sock_username socket) t2)])"
  by (simp add: join_session_def session_after_join_def Let_def new_participant_def)

lemma first_join_participants:
  assumes "first_join store socket sid"
  shows "participants (session_after_join store socket sid t1 t2)
    = participants (resolve_session store sid t1)
        @ [(sock_userId socket, new_participant socket t2)]"
proof -
  from assms have "map_of (participants (resolve_session store sid t1)) (sock_userId socket) = None"
    by (simp add: first_join_def resolve_session_def new_session_def split: option.splits)
  then show ?thesis by (simp add: session_after_join_def update_absent)
qed

lemma first_join_sorted:
  assumes o: "join_ordered store" and b: "joined_before store t2"
    and f: "first_join store socket sid"
  shows "sorted (map (joinedAt \<circ> snd) (participants (session_after_join store socket sid t1 t2)))"
  using resolve_session_ordered [OF o, of sid t1] resolve_session_before [OF b, of sid t1]
  by (simp add: first_join_participants [OF f] sorted_append joinedAt_new_participant)

lemma join_session_ordered:
  assumes o: "join_ordered store" and b: "joined_before store t2"
    and f: "first_join store socket sid"
  shows "join_ordered (fst (join_session t1 t2 store socket sid))"
  using o first_join_sorted [OF o b f, of t1]
  by (simp add: join_session_result join_ordered_def)

lemma join_session_before:
  assumes b: "joined_before store t" and le: "t2 \<le> t" and f: "first_join store socket sid"
  shows "joined_before (fst (join_session t1 t2 store socket sid)) t"
proof -
  have "\<forall>x \<in> set (participants (session_after_join store socket sid t1 t2)).
      joinedAt (snd x) \<le> t"
    using resolve_session_before [OF b, of sid t1] le
    by (simp add: first_join_participants [OF f] joinedAt_new_participant)
  with b show ?thesis by (simp add: join_session_result joined_before_def)
qed

lemma info_join_times: "i_joinedAt \<circ> (info_of \<circ> snd) = joinedAt \<circ> snd"
  by (simp add: fun_eq_iff info_of_def)

lemma join_session_payload:
  assumes o: "join_ordered store" and b: "joined_before store t2"
    and f: "first_join store socket sid"
  shows "\<forall>e \<in> set (snd (snd (join_session t1 t2 store socket sid))).
    sorted (payload_join_times (emitted_payload e))"
  using first_join_sorted [OF o b f, of t1]
  by (simp add: join_session_result info_join_times)

lemma handle_payload_no_join:
  assumes "\<forall>s sid t1 t2. ev \<noteq> JoinSession s sid t1 t2"
    and "e \<in> set (snd (snd (handle ev store socket)))"
  shows "payload_join_times (emitted_payload e) = []"
  using assms
  by (cases ev)
    (auto simp: text_operation_def cursor_update_def handleLeaveSession_def test_event_def
      Let_def split: option.splits if_splits)

lemma step_join_ordered:
  assumes o: "join_ordered (activeSessions srv)"
    and b: "\<forall>t \<in> set (join_time ev). joined_before (activeSessions srv) t"
    and nr: "\<not> rejoin srv ev"
  shows "join_ordered (activeSessions (fst (step srv ev)))"
proof (cases "sockets srv (event_socket ev)")
  case None
  with o show ?thesis by (simp add: step_store_unconnected)
next
  case (Some socket)
  show ?thesis
  proof (cases "\<exists>s sid t1 t2. ev = JoinSession s sid t1 t2")
    case True
    then obtain s sid t1 t2 where ev: "ev = JoinSession s sid t1 t2" by blast
    have "first_join (activeSessions srv) socket sid"
      using Some nr unfolding ev by (simp add: first_join_def split: option.splits)
    with o b ev Some show ?thesis
      by (simp add: step_store join_session_ordered)
  next
    case False
    with o Some show ?thesis by (simp add: step_store handle_join_ordered)
  qed
qed

lemma step_payload_sorted:
  assumes o: "join_ordered (activeSessions srv)"
    and b: "\<forall>t \<in> set (join_time ev). joined_before (activeSessions srv) t"
    and nr: "\<not> rejoin srv ev"
  shows "\<forall>e \<in> set (snd (step srv ev)). sorted (payload_join_times (emitted_payload e))"
proof (cases "sockets srv (event_socket ev)")
  case None
  then show ?thesis by (simp add: step_out_unconnected)
next
  case (Some socket)
  show ?thesis
  proof (cases "\<exists>s sid t1 t2. ev = JoinSession s sid t1 t2")
    case True
    then obtain s sid t1 t2 where ev: "ev = JoinSession s sid t1 t2" by blast
    have "first_join (activeSessions srv) socket sid"
      using Some nr unfolding ev by (simp add: first_join_def split: option.splits)
    with o b ev Some join_session_payload [of "activeSessions srv" t2 socket sid t1]
    show ?thesis by (simp add: step_out)
  next
    case False
    with Some handle_payload_no_join [of ev _ "activeSessions srv" socket]
    show ?thesis by (simp add: step_out)
  qed
qed

lemma step_joined_before:
  assumes b: "joined_before (activeSessions srv) t"
    and le: "\<forall>t' \<in> set (join_time ev). t' \<le> t"
    and nr: "\<not> rejoin srv ev"
  shows "joined_before (activeSessions (fst (step srv ev))) t"
proof (cases "sockets srv (event_socket ev)")
  case None
  with b show ?thesis by (simp add: step_store_unconnected)
next
  case (Some socket)
  show ?thesis
  proof (cases "\<exists>s sid t1 t2. ev = JoinSession s sid t1 t2")
    case True
    then obtain s sid t1 t2 where ev: "ev = JoinSession s sid t1 t2" by blast
    have "first_join (activeSessions srv) socket sid"
      using Some nr unfolding ev by (simp add: first_join_def split: option.splits)
    with b le ev Some show ?thesis
      by (simp add: step_store join_session_before)
  next
    case False
    with b Some show ?thesis by (simp add: step_store handle_joined_before)
  qed
qed

lemma run_payload_sorted:
  "join_ordered (activeSessions srv) \<Longrightarrow>
   \<forall>t \<in> set (join_times evs). joined_before (activeSessions srv) t \<Longrightarrow>
   sorted (join_times evs) \<Longrightarrow> no_rejoin srv evs \<Longrightarrow>
   \<forall>e \<in> set (snd (run srv evs)). sorted (payload_join_times (emitted_payload e))"
proof (induction evs arbitrary: srv)
  case Nil
  then show ?case by simp
next
  case (Cons ev evs)
  let ?srv' = "fst (step srv ev)"
  from Cons.prems have now: "\<forall>t \<in> set (join_time ev). joined_before (activeSessions srv) t"
    and later: "\<forall>t \<in> set (join_times evs). joined_before (activeSessions srv) t"
    and nr: "\<not> rejoin srv ev" and nrs: "no_rejoin ?srv' evs"
    and so: "sorted (join_times evs)"
    and le: "\<forall>t \<in> set (join_times evs). \<forall>t' \<in> set (join_time ev). t' \<le> t"
    by (auto simp: join_times_def sorted_append)
  have o': "join_ordered (activeSessions ?srv')"
    using step_join_ordered [OF Cons.prems(1) now nr] .
  have b': "\<forall>t \<in> set (join_times evs). joined_before (activeSessions ?srv') t"
    using later le nr by (auto intro: step_joined_before)
  have here: "\<forall>e \<in> set (snd (step srv ev)). sorted (payload_join_times (emitted_payload e))"
    using step_payload_sorted [OF Cons.prems(1) now nr] .
  from Cons.IH [OF o' b' so nrs] here
  show ?case by (auto simp: split_beta)
qed

lemma init_join_ordered: "join_ordered (activeSessions init_server)"
  by (simp add: join_ordered_def init_server_def)

lemma init_joined_before: "joined_before (activeSessions init_server) t"
  by (simp add: joined_before_def init_server_def)

lemma run_join_two:
  "run init_server join_two =
     (srv_two,
      [ToSocket ''a'' (SessionJoined ''S1'' default_content 1 [info_a 1]),
       ToOthers ''S1'' ''a'' (ParticipantJoined ''a'' ''User-a'' 1),
       ToSocket ''b'' (SessionJoined ''S1'' default_content 1 [info_a 1, info_b 2]),
       ToOthers ''S1'' ''b'' (ParticipantJoined ''b'' ''User-b'' 2)])"
  by (simp add: join_two_def init_server_def step_def join_session_def resolve_session_def
      Let_def srv_two_def session_two_def socket_a_def socket_b_def connection_def
      new_session_def new_participant_def info_a_def info_b_def info_of_def
      slice_def slice_index_def)

lemma rejoin_in_place:
  assumes "sockets srv s = Some socket" and "activeSessions srv sid = Some session"
    and "map_of (participants session) (sock_userId socket) \<noteq> None"
  shows "map_option (map fst \<circ> participants)
        (activeSessions (fst (step srv (JoinSession s sid t1 t2))) sid)
      = Some (map fst (participants session))
    \<and> map_option (\<lambda>session'. map_of (participants session') (sock_userId socket))
        (activeSessions (fst (step srv (JoinSession s sid t1 t2))) sid)
      = Some (Some (new_participant socket t2))"
proof -
  from assms(3) have "sock_userId socket \<in> set (map fst (participants session))"
    by (simp add: map_of_eq_None_iff)
  with assms(1,2) show ?thesis
    by (simp add: step_store join_session_store resolve_session_def update_keys update_conv')
qed

text \<open>
  C10, as stated: for every join sequence, re-joins included, \<open>joinedAt\<close> does not
  decrease along the \<open>participants\<close> array of the \<open>session-joined\<close> payload. The array
  is the participant map in its iteration order, and \<open>Map.set\<close> on a key that is present
  replaces the value where it stands. After \<open>a\<close> joins at 1 and \<open>b\<close> at 2, a re-join of
  \<open>a\<close> at 3 is answered with \<open>a\<close> (joined at 3) before \<open>b\<close> (joined at 2).
\<close>

theorem session_joined_order_counterexample:
  "fst (run init_server join_two) = srv_two
   \<and> hd (snd (step srv_two (JoinSession ''a'' ''S1'' 3 3)))
       = ToSocket ''a'' (SessionJoined ''S1'' default_content 1 [info_a 3, info_b 2])
   \<and> map i_joinedAt [info_a 3, info_b 2] = [3, 2]
   \<and> \<not> sorted (map i_joinedAt [info_a 3, info_b 2])"
  by (simp add: run_join_two)
    (simp add: step_def join_session_def resolve_session_def
      Let_def srv_two_def session_two_def socket_a_def socket_b_def connection_def
      new_session_def new_participant_def info_a_def info_b_def info_of_def
      slice_def slice_index_def)

text \<open>
  C10, amended: for every run of the server from its initial state in which no identity
  joins a session it is already a participant of, and in which the clock values stored as
  \<open>joinedAt\<close> do not decrease along the run, \<open>joinedAt\<close> does not decrease along the
  \<open>participants\<close> array of any \<open>session-joined\<close> payload. A re-join by an identity
  that is a participant keeps the order of the identities in the participant map and
  replaces the identity's entry by a new one, with the new \<open>joinedAt\<close>.
\<close>

theorem session_joined_order:
  "(sorted (join_times evs) \<and> no_rejoin init_server evs
    \<longrightarrow> (\<forall>e \<in> set (snd (run init_server evs)).
          sorted (payload_join_times (emitted_payload e))))
   \<and> (sockets srv s = Some socket \<and> activeSessions srv sid = Some session
      \<and> map_of (participants session) (sock_userId socket) \<noteq> None
    \<longrightarrow> map_option (map fst \<circ> participants)
          (activeSessions (fst (step srv (JoinSession s sid t1 t2))) sid)
          = Some (map fst (participants session))
        \<and> map_option (\<lambda>session'. map_of (participants session') (sock_userId socket))
          (activeSessions (fst (step srv (JoinSession s sid t1 t2))) sid)
          = Some (Some (new_participant socket t2)))"
proof (intro conjI impI)
  assume "sorted (join_times evs) \<and> no_rejoin init_server evs"
  then show "\<forall>e \<in> set (snd (run init_server evs)).
      sorted (payload_join_times (emitted_payload e))"
    using run_payload_sorted [OF init_join_ordered, of evs] init_joined_before by fast
next
  assume h: "sockets srv s = Some socket \<and> activeSessions srv sid = Some session
      \<and> map_of (participants session) (sock_userId socket) \<noteq> None"
  then show "map_option (map fst \<circ> participants)
          (activeSessions (fst (step srv (JoinSession s sid t1 t2))) sid)
          = Some (map fst (participants session))"
    using rejoin_in_place [of srv s socket sid session t1 t2] by fast
  from h show "map_option (\<lambda>session'. map_of (participants session') (sock_userId socket))
          (activeSessions (fst (step srv (JoinSession s sid t1 t2))) sid)
          = Some (Some (new_participant socket t2))"
    using rejoin_in_place [of srv s socket sid session t1 t2] by fast
qed

theorem session_joined_order_witness:
  "sorted (payload_join_times
     (SessionJoined ''S1'' default_content 1 [info_a 1, info_b 2]))
   \<and> map_option (map fst \<circ> participants)
        (activeSessions (fst (step srv_two (JoinSession ''a'' ''S1'' 3 3))) ''S1'')
      = Some [''a'', ''b'']
   \<and> map_option (\<lambda>session'. map_of (participants session') ''a'')
        (activeSessions (fst (step srv_two (JoinSession ''a'' ''S1'' 3 3))) ''S1'')
      = Some (Some (new_participant socket_a 3))"
proof -
  have s: "sorted (join_times join_two) \<and> no_rejoin init_server join_two"
    by (simp add: join_times_def join_two_def init_server_def step_def join_session_def
        resolve_session_def Let_def connection_def new_session_def new_participant_def)
  have m: "ToSocket ''b'' (SessionJoined ''S1'' default_content 1 [info_a 1, info_b 2])
      \<in> set (snd (run init_server join_two))"
    by (simp add: run_join_two)
  have r: "sockets srv_two ''a'' = Some socket_a
      \<and> activeSessions srv_two ''S1'' = Some session_two
      \<and> map_of (participants session_two) (sock_userId socket_a) \<noteq> None"
    by (simp add: srv_two_def session_two_def socket_a_def connection_def)
  have k: "map fst (participants session_two) = [''a'', ''b'']"
    "sock_userId socket_a = ''a''"
    by (simp_all add: session_two_def socket_a_def connection_def)
  note t = session_joined_order
    [where evs = join_two and srv = srv_two and s = "''a''" and socket = socket_a
       and sid = "''S1''" and session = session_two and ?t1.0 = 3 and ?t2.0 = 3]
  from t [THEN conjunct1, THEN mp, OF s, THEN bspec, OF m]
    t [THEN conjunct2, THEN mp, OF r]
  show ?thesis unfolding k by simp
qed

section \<open>Recipients of \<open>operation-applied\<close> and \<open>cursor-moved\<close>\<close>









section \<open>Frames are dispatched without an admission check\<close>

lemma step_frame_for_out:
  assumes "frame_for srv sid ev" and "activeSessions srv sid = Some session"
  shows "filter (\<lambda>e. is_error_payload (emitted_payload e)) (snd (step srv ev)) = []"
proof (cases ev)
  case ev: (TextOperationFrame s operation t1 t2)
  with assms obtain socket where "sockets srv s = Some socket"
    "data_sessionId socket = Some sid" "sid \<noteq> []"
    by (auto simp: frame_for_def split: option.splits if_splits)
  with assms ev show ?thesis
    by (simp add: step_connected text_operation_def Let_def)
qed (use assms in \<open>simp_all add: frame_for_def\<close>)

lemma frame_for_cong:
  "sockets srv' = sockets srv \<Longrightarrow> frame_for srv' sid ev = frame_for srv sid ev"
  using stamped_cong [of srv' srv sid] by (simp add: frame_for_def)

lemma text_frames_no_error:
  "\<forall>ev \<in> set evs. frame_for srv sid ev \<Longrightarrow> activeSessions srv sid = Some session \<Longrightarrow>
   filter (\<lambda>e. is_error_payload (emitted_payload e)) (snd (run srv evs)) = []"
proof (induction evs arbitrary: srv session)
  case Nil
  then show ?case by simp
next
  case (Cons ev evs)
  from Cons.prems have f: "frame_for srv sid ev" and tf: "is_text_frame ev"
    by (simp_all add: frame_for_def)
  have so: "sockets (fst (step srv ev)) = sockets srv"
    by (rule text_frame_sockets [OF tf])
  from text_frame_session [OF tf Cons.prems(2)]
  obtain session' where s': "activeSessions (fst (step srv ev)) sid = Some session'"
    by blast
  from Cons.prems have "\<forall>x \<in> set evs. frame_for (fst (step srv ev)) sid x"
    by (simp add: frame_for_cong [OF so])
  from Cons.IH [OF this s'] step_frame_for_out [OF f Cons.prems(2)]
  show ?case by (simp add: split_beta)
qed

text \<open>
  C3 asks that an admission check is consulted before a frame is dispatched and that a
  refused frame is dropped with a rejection notice. The module imports \<open>wsRateLimiter\<close>
  (60 messages per 60 seconds for a client) and never calls its \<open>checkLimit\<close>: the
  handlers are registered on the socket directly. Sixty-one \<open>text-operation\<close> frames from
  one socket at one clock value are all applied: the version goes from 1 to 62 and no
  \<open>error\<close> message is emitted.
\<close>

theorem burst_not_throttled:
  "length burst = 61
   \<and> map_option version (activeSessions (fst (run srv_joined burst)) ''S1'') = Some 62
   \<and> filter (\<lambda>e. is_error_payload (emitted_payload e)) (snd (run srv_joined burst)) = []"
proof -
  have r: "activeSessions srv_joined ''S1'' = Some session_of_a"
    by (simp add: srv_joined_eq)
  have f: "\<forall>ev \<in> set burst. frame_for srv_joined ''S1'' ev"
    by (simp add: burst_def frame_for_def srv_joined_eq socket_a_def)
  then have tf: "\<forall>ev \<in> set burst. is_text_frame ev"
    by (simp add: frame_for_def)
  have l: "length burst = 61" by (simp add: burst_def)
  have v: "version session_of_a = 1" by (simp add: session_of_a_def new_session_def)
  from text_frames_fold [OF tf r] operations_for_length [OF f] l v
  have "map_option version (activeSessions (fst (run srv_joined burst)) ''S1'') = Some 62"
    by simp
  with l text_frames_no_error [OF f r] show ?thesis by simp
qed

end
